theory Spec2Isabelle
  imports Main "HOL-Library.Sublist" "HOL-Library.AList"
begin

section \<open>Python values the wrapper relies on\<close>

text \<open>
  The exceptions that the modelled code paths of \<^verbatim>\<open>hf_model.py\<close> can raise.  The
  \<^verbatim>\<open>ValueError\<close> carries its message, the other ones only their kind (and the
  offending key or path where the interpreter reports one).
\<close>

datatype error =
    ValueError string
  | TypeError
  | KeyError string
  | AttributeError
  | UnboundLocalError
  | ZeroDivisionError
  | FileNotFoundError string
  | UnpicklingError
  | RuntimeError
  | InvalidArgumentError
  | UnicodeDecodeError

subsection \<open>Decimal numerals: \<^verbatim>\<open>str(n)\<close> and \<^verbatim>\<open>int(s)\<close>\<close>

definition digit_char :: "nat \<Rightarrow> char" where
  "digit_char d = char_of (48 + d)"

definition is_digit :: "char \<Rightarrow> bool" where
  "is_digit c = (48 \<le> (of_char c :: nat) \<and> (of_char c :: nat) \<le> 57)"

definition digit_val :: "char \<Rightarrow> nat" where
  "digit_val c = of_char c - 48"

function str_nat :: "nat \<Rightarrow> string" where
  "str_nat n = (if n < 10 then [digit_char n] else str_nat (n div 10) @ [digit_char (n mod 10)])"
  by pat_completeness auto
termination
  by (relation "measure id") auto

declare str_nat.simps [simp del]

text \<open>\<^verbatim>\<open>str(i)\<close> for a Python integer, as \<^verbatim>\<open>str.format\<close> and f-strings print it.\<close>

definition py_str :: "int \<Rightarrow> string" where
  "py_str i = (if i < 0 then CHR ''-'' # str_nat (nat (- i)) else str_nat (nat i))"

text \<open>\<^verbatim>\<open>int(s)\<close> on a string of decimal digits (the only strings the regular
  expression's group hands to it).\<close>

definition int_of_digits :: "string \<Rightarrow> int" where
  "int_of_digits s = int (foldl (\<lambda>a c. 10 * a + digit_val c) 0 s)"

subsection \<open>Paths, the checkpoint file name, the glob and the regular expression\<close>

text \<open>\<^verbatim>\<open>CHECKPOINT_FILE_FORMAT = "model-{}.checkpoint"\<close>, applied to the text that
  \<^verbatim>\<open>format\<close> substitutes.\<close>

definition CHECKPOINT_FILE_FORMAT :: "string \<Rightarrow> string" where
  "CHECKPOINT_FILE_FORMAT x = ''model-'' @ x @ ''.checkpoint''"

text \<open>\<^verbatim>\<open>os.path.join(d, f)\<close> (POSIX): an absolute second component replaces the
  first, otherwise the components are joined by one separator.\<close>

definition path_join :: "string \<Rightarrow> string \<Rightarrow> string" where
  "path_join d f =
     (if f \<noteq> [] \<and> hd f = CHR ''/'' then f
      else if d = [] \<or> last d = CHR ''/'' then d @ f
      else d @ ''/'' @ f)"

text \<open>\<^verbatim>\<open>x or y\<close> on an optional string: \<^verbatim>\<open>None\<close> and the empty string are falsy.\<close>

definition py_or :: "string option \<Rightarrow> string \<Rightarrow> string" where
  "py_or x y = (case x of None \<Rightarrow> y | Some s \<Rightarrow> if s = [] then y else s)"

text \<open>
  Matching one path against a glob pattern, as \<^verbatim>\<open>tf.io.gfile.glob\<close> does on a local
  file system (\<^verbatim>\<open>fnmatch\<close> with \<^verbatim>\<open>FNM_PATHNAME\<close>): \<^verbatim>\<open>*\<close> matches any run of
  characters inside one path component, \<^verbatim>\<open>?\<close> one such character, a backslash makes
  the next character literal, and a bracket expression matches one character of the
  component that is (or, after \<^verbatim>\<open>!\<close> or \<^verbatim>\<open>^\<close>, is not) among its characters and
  ranges; the first character of a bracket expression is always a member, and a bracket
  that is never closed stands for itself.  Named character classes inside brackets are
  not modelled.
\<close>

definition backslash :: char where
  "backslash = CHR 0x5C"


text \<open>One member of a bracket expression, possibly escaped; then the members up to the
  closing bracket, each a range of characters, with the pattern that follows.\<close>

fun take_item :: "string \<Rightarrow> (char \<times> string) option" where
  "take_item [] = None"
| "take_item (c # p) =
     (if c = backslash then (case p of [] \<Rightarrow> None | q # r \<Rightarrow> Some (q, r)) else Some (c, p))"

function bracket_items :: "string \<Rightarrow> ((char \<times> char) list \<times> string) option" where
  "bracket_items p =
     (case take_item p of
        None \<Rightarrow> None
      | Some (lo, p1) \<Rightarrow>
          (case (case p1 of
                   d # e # p2 \<Rightarrow>
                     if d = CHR ''-'' \<and> e \<noteq> CHR '']''
                     then (case take_item (e # p2) of
                             None \<Rightarrow> None
                           | Some (hi, p3) \<Rightarrow> Some ((lo, hi), p3))
                     else Some ((lo, lo), p1)
                 | _ \<Rightarrow> Some ((lo, lo), p1)) of
             None \<Rightarrow> None
           | Some (item, q) \<Rightarrow>
               (case q of
                  [] \<Rightarrow> None
                | c # q' \<Rightarrow>
                    if c = CHR '']'' then Some ([item], q')
                    else (case bracket_items q of
                            None \<Rightarrow> None
                          | Some (items, rest) \<Rightarrow> Some (item # items, rest)))))"
  by pat_completeness auto
termination
proof (relation "measure length")
  show "wf (measure length)" by simp
next
  fix p :: string and x2 lo p1 x2a item q c q'
  assume a: "take_item p = Some x2" "(lo, p1) = x2"
    and b: "(case p1 of
              [] \<Rightarrow> Some ((lo, lo), p1)
            | [d] \<Rightarrow> Some ((lo, lo), p1)
            | d # e # p2 \<Rightarrow>
                if d = CHR ''-'' \<and> e \<noteq> CHR '']''
                then (case take_item (e # p2) of
                        None \<Rightarrow> None
                      | Some (hi, p3) \<Rightarrow> Some ((lo, hi), p3))
                else Some ((lo, lo), p1)) = Some x2a"
      "(item, q) = x2a"
  have t: "\<And>s c r. take_item s = Some (c, r) \<Longrightarrow> length r < length s"
    by (case_tac s) (auto split: if_splits list.splits)
  from a have l1: "length p1 < length p" using t [of p lo p1] by simp
  from b have "length q \<le> length p1"
    by (auto split: list.splits if_splits option.splits dest!: t)
  with l1 show "(q, p) \<in> measure length" by simp
qed

declare bracket_items.simps [simp del]

definition parse_bracket :: "string \<Rightarrow> (bool \<times> (char \<times> char) list \<times> string) option" where
  "parse_bracket p =
     (let negated = (p \<noteq> [] \<and> (hd p = CHR ''!'' \<or> hd p = CHR ''^''));
          p1 = (if negated then tl p else p)
      in case bracket_items p1 of
           None \<Rightarrow> None
         | Some (items, rest) \<Rightarrow> Some (negated, items, rest))"

definition in_bracket :: "char \<Rightarrow> (char \<times> char) list \<Rightarrow> bool" where
  "in_bracket c items =
     list_ex (\<lambda>(lo, hi). (of_char lo :: nat) \<le> of_char c \<and> (of_char c :: nat) \<le> of_char hi) items"

fun glob_match :: "string \<Rightarrow> string \<Rightarrow> bool" where
  "glob_match [] s = (s = [])"
| "glob_match (p # ps) s =
     (if p = CHR ''*''
      then (glob_match ps s \<or>
            (case s of [] \<Rightarrow> False | c # cs \<Rightarrow> c \<noteq> CHR ''/'' \<and> glob_match (p # ps) cs))
      else (case s of
              [] \<Rightarrow> False
            | c # cs \<Rightarrow>
                if p = CHR ''?'' then c \<noteq> CHR ''/'' \<and> glob_match ps cs
                else if p = backslash
                then (case ps of [] \<Rightarrow> False | q # qs \<Rightarrow> c = q \<and> glob_match qs cs)
                else if p = CHR ''[''
                then (case parse_bracket ps of
                        None \<Rightarrow> c = p \<and> glob_match ps cs
                      | Some (negated, items, rest) \<Rightarrow>
                          c \<noteq> CHR ''/'' \<and> in_bracket c items \<noteq> negated \<and> glob_match rest cs)
                else c = p \<and> glob_match ps cs))"

definition newline :: char where
  "newline = CHR 0x0A"

text \<open>The regular expression's \<^verbatim>\<open>.\<close>: any character but a newline.\<close>

definition re_dot :: "char \<Rightarrow> bool" where
  "re_dot c = (c \<noteq> newline)"

text \<open>
  \<^verbatim>\<open>re.compile(".*" + CHECKPOINT_FILE_FORMAT.format(r"(\d+)")).match(path)\<close>, that is
  the pattern \<^verbatim>\<open>.*model-(\d+).checkpoint\<close> anchored at the start of the path only.  The
  matcher backtracks as Python's does: a greedy repetition first tries to take one more
  character and falls back to the rest of the pattern.  The result is \<^verbatim>\<open>group(1)\<close>,
  or \<open>None\<close> when the path does not match.
\<close>

fun match_suffix :: "string \<Rightarrow> bool" where
  "match_suffix [] = False"
| "match_suffix (c # cs) = (re_dot c \<and> prefix ''checkpoint'' cs)"

fun match_digits :: "string \<Rightarrow> string \<Rightarrow> string option" where
  "match_digits acc [] = None"
| "match_digits acc (c # cs) =
     (if is_digit c
      then (case match_digits (acc @ [c]) cs of
              Some g \<Rightarrow> Some g
            | None \<Rightarrow> if match_suffix cs then Some (acc @ [c]) else None)
      else None)"

definition match_model :: "string \<Rightarrow> string option" where
  "match_model s = (if prefix ''model-'' s then match_digits [] (drop 6 s) else None)"

fun step_regex_match :: "string \<Rightarrow> string option" where
  "step_regex_match [] = match_model []"
| "step_regex_match (c # cs) =
     (if re_dot c
      then (case step_regex_match cs of Some g \<Rightarrow> Some g | None \<Rightarrow> match_model (c # cs))
      else match_model (c # cs))"

section \<open>The wrapper's state\<close>

text \<open>
  What a file holds: a pickled state dictionary written by \<^verbatim>\<open>torch.save\<close>, or text
  written by \<^verbatim>\<open>write_lines_to_file\<close>.
\<close>

datatype 'p content = StateDict 'p | TextFile string

text \<open>
  The \<^verbatim>\<open>HfPyTorchModel\<close> object together with the parts of the world its methods
  write: \<open>params\<close> are the parameters of \<^verbatim>\<open>self._model\<close>, \<open>training\<close> is its
  train/eval mode flag, \<open>step\<close> is \<^verbatim>\<open>self._step\<close>, \<open>files\<close> is the file system
  (path to content), \<open>scalars\<close> are the entries of \<^verbatim>\<open>self._writer\<close> as (tag, value,
  step), and \<open>info_log\<close> are the messages given to \<^verbatim>\<open>logging.info\<close>.
\<close>

record ('p, 'v) state =
  params :: 'p
  training :: bool
  step :: int
  model_dir :: string
  files :: "(string \<times> 'p content) list"
  scalars :: "(string \<times> 'v \<times> int) list"
  info_log :: "string list"

text \<open>
  One example of a dataset after tokenisation: the token features, their masks and the
  plain-text features.  A batch holds its examples row by row.
\<close>

record example =
  inputs :: "int list"
  inputs_mask :: "int list"
  targets :: "int list"
  targets_mask :: "int list"
  inputs_plaintext :: string
  targets_plaintext :: string

type_synonym batch = "example list"

text \<open>
  The collaborators outside this module, as functions: the model library
  (\<^verbatim>\<open>load_state_dict\<close>; the optimizer factory together with the optional scheduler
  factory; one optimisation step, that is \<^verbatim>\<open>zero_grad\<close>, the forward pass,
  \<^verbatim>\<open>backward\<close>, \<^verbatim>\<open>optimizer.step\<close> and the scheduler's step, which gives the new
  optimizer state, the new parameters, the loss and the measured steps per second, or
  raises; \<^verbatim>\<open>generate\<close>, which reads the mode flag and the parameters), the vocabulary
  (\<^verbatim>\<open>encode\<close>, \<^verbatim>\<open>decode\<close>), the dataset pipeline's \<^verbatim>\<open>pack_or_pad\<close> on one
  example (at the caller's \<^verbatim>\<open>sequence_length\<close>), and the \<^verbatim>\<open>%.3f\<close> rendering of a
  scalar.
\<close>

record ('p, 'o, 'v) library =
  load_state_dict :: "'p \<Rightarrow> 'p \<Rightarrow> error option \<times> 'p"
  make_optimizer :: "'p \<Rightarrow> 'o"
  train_batch :: "'o \<Rightarrow> 'p \<Rightarrow> batch \<Rightarrow> error + ('o \<times> 'p \<times> 'v \<times> 'v)"
  generate :: "bool \<Rightarrow> 'p \<Rightarrow> int list list \<Rightarrow> int list list"
  encode :: "string \<Rightarrow> int list"
  decode :: "int list \<Rightarrow> string"
  pack_or_pad :: "example \<Rightarrow> example"
  format_scalar :: "'v \<Rightarrow> string"

section \<open>The checkpoint store\<close>

text \<open>\<^verbatim>\<open>save_checkpoint\<close>: \<^verbatim>\<open>torch.save\<close> writes (or overwrites) the file at the path.\<close>

definition checkpoint_path :: "string \<Rightarrow> int \<Rightarrow> string" where
  "checkpoint_path dir stp = path_join dir (CHECKPOINT_FILE_FORMAT (py_str stp))"

definition save_checkpoint :: "int \<Rightarrow> ('p, 'v) state \<Rightarrow> ('p, 'v) state" where
  "save_checkpoint stp w =
     w\<lparr>files := AList.update (checkpoint_path (model_dir w) stp) (StateDict (params w)) (files w)\<rparr>"

text \<open>
  \<^verbatim>\<open>torch.load(path)\<close>: the path must exist and hold a pickled state dictionary.  On
  any other content deserialisation raises; the one kind of exception here stands for
  whichever it raises on that content.
\<close>

definition torch_load :: "(string \<times> 'p content) list \<Rightarrow> string \<Rightarrow> error + 'p" where
  "torch_load fs path =
     (case map_of fs path of
        None \<Rightarrow> Inl (FileNotFoundError path)
      | Some (TextFile t) \<Rightarrow> Inl UnpicklingError
      | Some (StateDict sd) \<Rightarrow> Inr sd)"

text \<open>
  \<^verbatim>\<open>load_checkpoint\<close>.  \<^verbatim>\<open>load_state_dict\<close> may have copied some tensors before
  it raises, so it returns the parameters it leaves behind in either case.  The result
  pairs the exception raised, if any, with the state at that point.
\<close>

definition load_checkpoint ::
  "('p, 'o, 'v) library \<Rightarrow> int \<Rightarrow> string option \<Rightarrow> ('p, 'v) state
     \<Rightarrow> error option \<times> ('p, 'v) state" where
  "load_checkpoint lib stp model_dir_arg w =
     (let dir = py_or model_dir_arg (model_dir w);
          path = checkpoint_path dir stp;
          w1 = w\<lparr>info_log := info_log w @ [''Loading from '' @ path]\<rparr>
      in case torch_load (files w1) path of
           Inl e \<Rightarrow> (Some e, w1)
         | Inr sd \<Rightarrow>
             (case load_state_dict lib (params w1) sd of
                (Some e, p') \<Rightarrow> (Some e, w1\<lparr>params := p'\<rparr>)
              | (None, p') \<Rightarrow> (None, w1\<lparr>params := p', step := stp\<rparr>)))"

text \<open>
  \<^verbatim>\<open>tf.io.gfile.glob(pattern)\<close>: the paths of the file system that match, in the file
  system's order.
\<close>

definition glob :: "string \<Rightarrow> (string \<times> 'p content) list \<Rightarrow> string list" where
  "glob pat fs = filter (glob_match pat) (map fst fs)"

text \<open>
  The list comprehension of \<^verbatim>\<open>get_all_checkpoint_steps\<close>: a path the regular
  expression does not match makes \<^verbatim>\<open>match\<close> return \<^verbatim>\<open>None\<close>, and
  \<^verbatim>\<open>.group(1)\<close> on it raises \<^verbatim>\<open>AttributeError\<close>.
\<close>

fun extract_steps :: "string list \<Rightarrow> error + int list" where
  "extract_steps [] = Inr []"
| "extract_steps (path # paths) =
     (case step_regex_match path of
        None \<Rightarrow> Inl AttributeError
      | Some g \<Rightarrow>
          (case extract_steps paths of
             Inl e \<Rightarrow> Inl e
           | Inr steps \<Rightarrow> Inr (int_of_digits g # steps)))"

text \<open>\<^verbatim>\<open>get_all_checkpoint_steps\<close>; the inner \<open>None\<close> is Python's \<^verbatim>\<open>None\<close>.\<close>

definition get_all_checkpoint_steps ::
  "string option \<Rightarrow> ('p, 'v) state \<Rightarrow> error + int list option" where
  "get_all_checkpoint_steps model_dir_arg w =
     (let dir = py_or model_dir_arg (model_dir w);
          checkpoint_files = glob (path_join dir (CHECKPOINT_FILE_FORMAT ''*'')) (files w)
      in if checkpoint_files = [] then Inr None
         else (case extract_steps checkpoint_files of
                 Inl e \<Rightarrow> Inl e
               | Inr steps \<Rightarrow> Inr (Some (sort steps))))"

text \<open>\<^verbatim>\<open>get_latest_checkpoint_step\<close> and \<^verbatim>\<open>load_latest_checkpoint\<close>.\<close>

definition get_latest_checkpoint_step ::
  "string option \<Rightarrow> ('p, 'v) state \<Rightarrow> error + int option" where
  "get_latest_checkpoint_step model_dir_arg w =
     (case get_all_checkpoint_steps model_dir_arg w of
        Inl e \<Rightarrow> Inl e
      | Inr None \<Rightarrow> Inr None
      | Inr (Some steps) \<Rightarrow> Inr (Some (Max (set steps))))"

definition load_latest_checkpoint ::
  "('p, 'o, 'v) library \<Rightarrow> ('p, 'v) state \<Rightarrow> error option \<times> ('p, 'v) state" where
  "load_latest_checkpoint lib w =
     (case get_latest_checkpoint_step None w of
        Inl e \<Rightarrow> (Some e, w)
      | Inr None \<Rightarrow> (None, w)
      | Inr (Some latest_step) \<Rightarrow> load_checkpoint lib latest_step None w)"

section \<open>The batch pipeline adapter\<close>

text \<open>\<^verbatim>\<open>dataset.batch(n, drop_remainder=False)\<close>: consecutive groups of \<open>n\<close>, the last
  one possibly shorter.\<close>

function batched :: "nat \<Rightarrow> 'a list \<Rightarrow> 'a list list" where
  "batched n xs = (if n = 0 \<or> xs = [] then [] else take n xs # batched n (drop n xs))"
  by pat_completeness auto
termination
  by (relation "measure (\<lambda>(n, xs). length xs)") auto

declare batched.simps [simp del]

text \<open>\<^verbatim>\<open>_map_fn\<close> of \<^verbatim>\<open>tokens_to_batches\<close>: the mask of a token feature is 1 where the
  token is positive.\<close>

definition mask :: "int list \<Rightarrow> int list" where
  "mask tensor = map (\<lambda>t. if t > 0 then 1 else 0) tensor"

definition map_fn :: "string list \<Rightarrow> example \<Rightarrow> example" where
  "map_fn output_features ex =
     (let ex1 = (if ''inputs'' \<in> set output_features
                 then ex\<lparr>inputs_mask := mask (inputs ex)\<rparr> else ex)
      in if ''targets'' \<in> set output_features
         then ex1\<lparr>targets_mask := mask (targets ex1)\<rparr> else ex1)"

text \<open>\<^verbatim>\<open>tokens_to_batches\<close>; the dataset library rejects a batch size that is not
  positive.\<close>

definition tokens_to_batches ::
  "('p, 'o, 'v) library \<Rightarrow> example list \<Rightarrow> int \<Rightarrow> string list \<Rightarrow> error + batch list" where
  "tokens_to_batches lib dataset batch_size output_features =
     (if batch_size \<le> 0 then Inl InvalidArgumentError
      else Inr (batched (nat batch_size)
                  (map (map_fn output_features) (map (pack_or_pad lib) dataset))))"

text \<open>
  A registered task: its name, its splits, its metric functions (each from the targets
  and the predictions to a dictionary of scores, kept in the dictionary's order), its
  postprocessing function (text, example, \<^verbatim>\<open>is_target\<close>) and, for each split, the
  token dataset the registry's \<^verbatim>\<open>get_dataset\<close> gives.
\<close>

record 'v task =
  name :: string
  splits :: "string list"
  metric_fns :: "(string list \<Rightarrow> string list \<Rightarrow> (string \<times> 'v) list) list"
  postprocess_fn :: "string \<Rightarrow> example \<Rightarrow> bool \<Rightarrow> string"
  task_dataset :: "string \<Rightarrow> example list"

datatype 'v mixture_or_task = Task "'v task" | Mixture "'v task list"

text \<open>\<^verbatim>\<open>get_dataset\<close> for the task that the registry makes of the name; its output
  features are the inputs and the targets.\<close>

definition get_dataset ::
  "('p, 'o, 'v) library \<Rightarrow> 'v task \<Rightarrow> string \<Rightarrow> int \<Rightarrow> error + batch list" where
  "get_dataset lib tsk split batch_size =
     tokens_to_batches lib (task_dataset tsk split) batch_size [''inputs'', ''targets'']"

text \<open>\<^verbatim>\<open>"\n".join(lines)\<close> and \<^verbatim>\<open>write_lines_to_file\<close>.\<close>

fun join_lines :: "string list \<Rightarrow> string" where
  "join_lines [] = []"
| "join_lines [l] = l"
| "join_lines (l # l' # ls) = l @ newline # join_lines (l' # ls)"

definition write_lines_to_file ::
  "string list \<Rightarrow> string \<Rightarrow> ('p, 'v) state \<Rightarrow> ('p, 'v) state" where
  "write_lines_to_file lines filename w =
     (let fs1 = (case map_of (files w) filename of
                   None \<Rightarrow> files w
                 | Some c \<Rightarrow> AList.delete filename (files w))
      in w\<lparr>files := AList.update filename (TextFile (join_lines lines)) fs1\<rparr>)"

text \<open>A \<^verbatim>\<open>for\<close> loop whose body may raise: the first exception ends the loop.\<close>

fun for_each :: "('a \<Rightarrow> 's \<Rightarrow> error option \<times> 's) \<Rightarrow> 'a list \<Rightarrow> 's \<Rightarrow> error option \<times> 's" where
  "for_each body [] s = (None, s)"
| "for_each body (x # xs) s =
     (case body x s of
        (Some e, s') \<Rightarrow> (Some e, s')
      | (None, s') \<Rightarrow> for_each body xs s')"

section \<open>The training loop\<close>

text \<open>\<^verbatim>\<open>itertools.islice(itertools.cycle(ds), steps)\<close> for \<open>steps \<ge> 0\<close>: cycling an
  empty dataset yields nothing.\<close>

definition islice_cycle :: "'a list \<Rightarrow> nat \<Rightarrow> 'a list" where
  "islice_cycle ds n = (if ds = [] then [] else map (\<lambda>i. ds ! (i mod length ds)) [0..<n])"

text \<open>
  The loop's state: the loop variable \<^verbatim>\<open>train_step\<close> (\<open>None\<close> while it is unbound), the
  optimizer and the wrapper.  One iteration saves a checkpoint at the current step
  counter when \<^verbatim>\<open>train_step % save_steps\<close> is zero, then takes one optimisation step,
  logs the two scalars and increments the step counter.
\<close>

definition train_iteration ::
  "('p, 'o, 'v) library \<Rightarrow> int \<Rightarrow> nat \<times> batch \<Rightarrow> int option \<times> 'o \<times> ('p, 'v) state
     \<Rightarrow> error option \<times> int option \<times> 'o \<times> ('p, 'v) state" where
  "train_iteration lib save_steps ib acc =
     (case acc of (unused, opt, w) \<Rightarrow>
        (let train_step = int (fst ib); batch = snd ib in
         if save_steps = 0 then (Some ZeroDivisionError, Some train_step, opt, w)
         else
           (let w1 = (if train_step mod save_steps = 0
                      then save_checkpoint (step w)
                             (w\<lparr>info_log := info_log w @
                                  [''Saving checkpoint for step '' @ py_str (step w)]\<rparr>)
                      else w)
            in case train_batch lib opt (params w1) batch of
                 Inl e \<Rightarrow> (Some e, Some train_step, opt, w1)
               | Inr (opt', p', loss, rate) \<Rightarrow>
                   (None, Some train_step, opt',
                    w1\<lparr>params := p',
                       scalars := scalars w1 @ [(''loss'', loss, step w1), (''step/s'', rate, step w1)],
                       step := step w1 + 1\<rparr>))))"

text \<open>
  \<^verbatim>\<open>train\<close> on the task's dataset.  \<^verbatim>\<open>islice\<close> rejects a negative count; after the
  loop, reading \<^verbatim>\<open>train_step\<close> raises when no iteration has bound it.
\<close>

definition train ::
  "('p, 'o, 'v) library \<Rightarrow> 'v task \<Rightarrow> int \<Rightarrow> int \<Rightarrow> string \<Rightarrow> int \<Rightarrow> ('p, 'v) state
     \<Rightarrow> error option \<times> ('p, 'v) state" where
  "train lib tsk steps save_steps split batch_size w =
     (let w1 = w\<lparr>training := True\<rparr> in
      case get_dataset lib tsk split batch_size of
        Inl e \<Rightarrow> (Some e, w1)
      | Inr ds \<Rightarrow>
          (let optimizer = make_optimizer lib (params w1) in
           if steps < 0
           then (Some (ValueError
                   ''Stop argument for islice() must be None or an integer: 0 <= x <= sys.maxsize.''),
                 w1)
           else
             (case for_each (train_iteration lib save_steps)
                     (List.enumerate 0 (islice_cycle ds (nat steps))) (None, optimizer, w1) of
                (Some e, train_step, opt, w2) \<Rightarrow> (Some e, w2)
              | (None, train_step, opt, w2) \<Rightarrow>
                  (case train_step of
                     None \<Rightarrow> (Some UnboundLocalError, w2)
                   | Some ts \<Rightarrow>
                       if save_steps = 0 then (Some ZeroDivisionError, w2)
                       else if ts mod save_steps \<noteq> 0
                       then (None, save_checkpoint (step w2)
                                     (w2\<lparr>info_log := info_log w2 @
                                          [''Saving final checkpoint for step '' @ py_str (step w2)]\<rparr>))
                       else (None, w2)))))"

section \<open>The evaluation orchestrator\<close>

definition quote :: char where
  "quote = CHR 0x27"

text \<open>
  The values \<^verbatim>\<open>checkpoint_steps\<close> can take: \<^verbatim>\<open>None\<close>, an integer, a string, a list
  or a tuple of integers, or an object of another type (given by its printed form).
  Booleans, which pass the integer test but are formatted as \<^verbatim>\<open>True\<close> and
  \<^verbatim>\<open>False\<close>, are left out.
\<close>

datatype checkpoint_steps =
    CsNone
  | CsInt int
  | CsStr string
  | CsList "int list"
  | CsTuple "int list"
  | CsOther string

text \<open>
  \<^verbatim>\<open>str(b)\<close> of a bytes object, which is what the plain-text features of a numpy
  example are: the \<^verbatim>\<open>b\<close> prefix, single quotes unless the bytes hold a single quote
  and no double quote, and escapes for the quote, the backslash, tab, newline, carriage
  return and every byte outside the printable ASCII range.
\<close>

definition hex_digit :: "nat \<Rightarrow> char" where
  "hex_digit d = (if d < 10 then char_of (48 + d) else char_of (87 + d))"

definition escape_byte :: "char \<Rightarrow> char \<Rightarrow> string" where
  "escape_byte q c =
     (if c = q \<or> c = backslash then [backslash, c]
      else if c = CHR 0x09 then [backslash, CHR ''t'']
      else if c = CHR 0x0A then [backslash, CHR ''n'']
      else if c = CHR 0x0D then [backslash, CHR ''r'']
      else if (of_char c :: nat) < 32 \<or> 127 \<le> (of_char c :: nat)
      then [backslash, CHR ''x'', hex_digit (of_char c div 16), hex_digit (of_char c mod 16)]
      else [c])"

definition bytes_str :: "string \<Rightarrow> string" where
  "bytes_str b =
     (let q = (if quote \<in> set b \<and> CHR 0x22 \<notin> set b then CHR 0x22 else quote)
      in CHR ''b'' # q # concat (map (escape_byte q) b) @ [q])"

text \<open>
  The pre-loading pass over the tasks that remain.  The targets are decoded to text
  before they are postprocessed; the inputs are written as the bytes they are.  Its state is the two caches
  (dictionaries keyed by the task's name) and the wrapper.
\<close>

type_synonym ('p, 'v) eval_cache =
  "(string \<rightharpoonup> string list) \<times> (string \<rightharpoonup> batch list) \<times> ('p, 'v) state"

definition cache_task ::
  "('p, 'o, 'v) library \<Rightarrow> string \<Rightarrow> int \<Rightarrow> string \<Rightarrow> 'v task \<Rightarrow> ('p, 'v) eval_cache
     \<Rightarrow> error option \<times> ('p, 'v) eval_cache" where
  "cache_task lib split batch_size summary_dir tsk acc =
     (case acc of (cached_targets, cached_examples, w) \<Rightarrow>
        if metric_fns tsk = [] then (None, acc)
        else
          (case get_dataset lib tsk split batch_size of
             Inl e \<Rightarrow> (Some e, acc)
           | Inr batches \<Rightarrow>
               if batches = []
               then (Some (ValueError (''The '' @ [quote] @ split @ [quote] @ '' split of ''
                                        @ name tsk @ '' is empty.'')), acc)
               else
                 (let examples = concat batches;
                      target_lines = map (\<lambda>ex. postprocess_fn tsk (targets_plaintext ex) ex True) examples;
                      targets_filename = path_join summary_dir (name tsk @ ''_targets'');
                      w1 = write_lines_to_file target_lines targets_filename w;
                      inputs_filename = path_join summary_dir (name tsk @ ''_inputs'');
                      input_lines = map (\<lambda>ex. bytes_str (inputs_plaintext ex)) examples;
                      w2 = write_lines_to_file input_lines inputs_filename w1
                  in (None, cached_targets(name tsk \<mapsto> target_lines),
                            cached_examples(name tsk \<mapsto> batches), w2))))"

text \<open>The predictions of one task: batch by batch, each generated row paired with the
  example of its row (\<^verbatim>\<open>zip\<close> stops at the shorter of the two).\<close>

definition predict_batch ::
  "('p, 'o, 'v) library \<Rightarrow> 'v task \<Rightarrow> ('p, 'v) state \<Rightarrow> batch \<Rightarrow> string list" where
  "predict_batch lib tsk w batch =
     (let predicted_tokens = generate lib (training w) (params w) (map inputs batch)
      in map (\<lambda>(p, ex). postprocess_fn tsk (decode lib p) ex False) (zip predicted_tokens batch))"

text \<open>Logging the scores of one metric function, in the dictionary's order.\<close>

definition log_scores ::
  "('p, 'o, 'v) library \<Rightarrow> 'v task \<Rightarrow> (string \<times> 'v) list \<Rightarrow> ('p, 'v) state \<Rightarrow> ('p, 'v) state" where
  "log_scores lib tsk scores w =
     fold (\<lambda>(metric_name, metric_value) w'.
             (let tag = ''eval/'' @ name tsk @ ''/'' @ metric_name
              in w'\<lparr>scalars := scalars w' @ [(tag, metric_value, step w')],
                    info_log := info_log w' @
                      [tag @ '' at step '' @ py_str (step w') @ '': '' @ format_scalar lib metric_value]\<rparr>))
       scores w"

text \<open>The body of the loop over the tasks in \<^verbatim>\<open>_eval_current_model\<close>.\<close>

definition eval_task ::
  "('p, 'o, 'v) library \<Rightarrow> string \<Rightarrow> (string \<rightharpoonup> string list) \<Rightarrow> (string \<rightharpoonup> batch list)
     \<Rightarrow> 'v task \<Rightarrow> ('p, 'v) state \<Rightarrow> error option \<times> ('p, 'v) state" where
  "eval_task lib summary_dir cached_targets cached_examples tsk w =
     (case cached_examples (name tsk) of
        None \<Rightarrow> (Some (KeyError (name tsk)), w)
      | Some ds \<Rightarrow>
          (case cached_targets (name tsk) of
             None \<Rightarrow> (Some (KeyError (name tsk)), w)
           | Some target_lines \<Rightarrow>
               (let predictions = concat (map (predict_batch lib tsk w) ds) in
                if length target_lines \<noteq> length predictions
                then (Some (ValueError (''#targets ('' @ str_nat (length target_lines)
                              @ '') != #predictions ('' @ str_nat (length predictions) @ '')'')), w)
                else
                  (let predictions_file =
                         path_join summary_dir (name tsk @ ''_'' @ py_str (step w) @ ''_predictions'');
                       w1 = write_lines_to_file predictions predictions_file w
                   in (None, fold (\<lambda>metric_fn. log_scores lib tsk (metric_fn target_lines predictions))
                               (metric_fns tsk) w1)))))"

definition eval_current_model ::
  "('p, 'o, 'v) library \<Rightarrow> string \<Rightarrow> (string \<rightharpoonup> string list) \<Rightarrow> (string \<rightharpoonup> batch list)
     \<Rightarrow> 'v task list \<Rightarrow> ('p, 'v) state \<Rightarrow> error option \<times> ('p, 'v) state" where
  "eval_current_model lib summary_dir cached_targets cached_examples tasks w =
     for_each (eval_task lib summary_dir cached_targets cached_examples) tasks
       (w\<lparr>training := False\<rparr>)"

text \<open>
  The final loop of \<^verbatim>\<open>eval\<close> over \<^verbatim>\<open>checkpoint_steps\<close>, which by then is a list or
  the \<^verbatim>\<open>None\<close> that \<^verbatim>\<open>get_all_checkpoint_steps\<close> returned; iterating over
  \<^verbatim>\<open>None\<close> raises \<^verbatim>\<open>TypeError\<close>.
\<close>

definition eval_checkpoints ::
  "('p, 'o, 'v) library \<Rightarrow> string \<Rightarrow> (string \<rightharpoonup> string list) \<Rightarrow> (string \<rightharpoonup> batch list)
     \<Rightarrow> 'v task list \<Rightarrow> int list option \<Rightarrow> ('p, 'v) state \<Rightarrow> error option \<times> ('p, 'v) state" where
  "eval_checkpoints lib summary_dir cached_targets cached_examples tasks checkpoint_steps w =
     (case checkpoint_steps of
        None \<Rightarrow> (Some TypeError, w)
      | Some steps \<Rightarrow>
          for_each (\<lambda>checkpoint_step w'.
                      case load_checkpoint lib checkpoint_step None w' of
                        (Some e, w'') \<Rightarrow> (Some e, w'')
                      | (None, w'') \<Rightarrow>
                          eval_current_model lib summary_dir cached_targets cached_examples tasks w'')
            steps w)"

text \<open>The notice logged for a task without the split; the source's message is not an
  f-string, so the braces are logged as they stand.\<close>

definition skip_notice :: string where
  "skip_notice = ''Task {task.name} has no '' @ [quote] @ ''{split}'' @ [quote] @ '' split; skipping eval.''"

definition eval ::
  "('p, 'o, 'v) library \<Rightarrow> 'v mixture_or_task \<Rightarrow> int \<Rightarrow> checkpoint_steps \<Rightarrow> string option \<Rightarrow> string
     \<Rightarrow> ('p, 'v) state \<Rightarrow> error option \<times> ('p, 'v) state" where
  "eval lib mixture_or_task batch_size checkpoint_steps summary_dir_arg split w =
     (let tasks0 = (case mixture_or_task of Mixture ts \<Rightarrow> ts | Task t \<Rightarrow> [t]);
          w1 = fold (\<lambda>tsk w'. if split \<notin> set (splits tsk)
                               then w'\<lparr>info_log := info_log w' @ [skip_notice]\<rparr> else w')
                 tasks0 w;
          tasks = filter (\<lambda>tsk. split \<in> set (splits tsk)) tasks0;
          summary_dir = py_or summary_dir_arg (path_join (model_dir w1) (split @ ''_eval''))
      in case for_each (cache_task lib split batch_size summary_dir) tasks
                (Map.empty, Map.empty, w1) of
           (Some e, cached_targets, cached_examples, w2) \<Rightarrow> (Some e, w2)
         | (None, cached_targets, cached_examples, w2) \<Rightarrow>
             (case checkpoint_steps of
                CsNone \<Rightarrow> eval_current_model lib summary_dir cached_targets cached_examples tasks w2
              | CsInt n \<Rightarrow>
                  eval_checkpoints lib summary_dir cached_targets cached_examples tasks (Some [n]) w2
              | CsStr s \<Rightarrow>
                  if s = ''all''
                  then (case get_all_checkpoint_steps None w2 of
                          Inl e \<Rightarrow> (Some e, w2)
                        | Inr all_steps \<Rightarrow>
                            eval_checkpoints lib summary_dir cached_targets cached_examples tasks
                              all_steps w2)
                  else (Some (ValueError (''checkpoint_steps must be None, int or list; got '' @ s)), w2)
              | CsList steps \<Rightarrow>
                  eval_checkpoints lib summary_dir cached_targets cached_examples tasks (Some steps) w2
              | CsTuple steps \<Rightarrow>
                  eval_checkpoints lib summary_dir cached_targets cached_examples tasks (Some steps) w2
              | CsOther printed \<Rightarrow>
                  (Some (ValueError (''checkpoint_steps must be None, int or list; got '' @ printed)), w2)))"

section \<open>The prediction driver\<close>



function file_lines :: "string \<Rightarrow> string list" where
  "file_lines t =
     (if t = [] then []
      else takeWhile (\<lambda>c. c \<noteq> newline) t # file_lines (tl (dropWhile (\<lambda>c. c \<noteq> newline) t)))"
  by pat_completeness auto
termination
proof (relation "measure length")
  show "wf (measure length)" by simp
next
  fix t :: string
  assume "t \<noteq> []"
  then have "length (tl (dropWhile (\<lambda>c. c \<noteq> newline) t)) < length t"
    using length_dropWhile_le [of "\<lambda>c. c \<noteq> newline" t] by (cases t) auto
  then show "(tl (dropWhile (\<lambda>c. c \<noteq> newline) t), t) \<in> measure length" by simp
qed

declare file_lines.simps [simp del]




section \<open>Notions used to state the properties\<close>

text \<open>The glob pattern of the checkpoint files of a directory, and the paths of a file
  system after \<^verbatim>\<open>torch.save\<close> has written one: a path that is new comes last.\<close>

definition checkpoint_pattern :: "string \<Rightarrow> string" where
  "checkpoint_pattern dir = path_join dir (CHECKPOINT_FILE_FORMAT ''*'')"

definition add_new :: "'a \<Rightarrow> 'a list \<Rightarrow> 'a list" where
  "add_new k g = (if k \<in> set g then g else g @ [k])"

text \<open>
  The save policy as the specification words it.  Over \<open>n\<close> iterations whose first loop
  index is \<open>i\<close>, started at step counter \<open>s0\<close>: a save at the current step counter before
  each iteration whose loop index is a multiple of \<open>save_steps\<close>; and after \<open>steps\<close>
  iterations one trailing save at the final step counter when the last loop index is
  not such a multiple.
\<close>

definition save_points :: "nat \<Rightarrow> nat \<Rightarrow> int \<Rightarrow> int \<Rightarrow> int list" where
  "save_points i n save_steps s0 =
     map (\<lambda>j. s0 + int j) (filter (\<lambda>j. int (i + j) mod save_steps = 0) [0..<n])"

definition final_save :: "int \<Rightarrow> int \<Rightarrow> int \<Rightarrow> int list" where
  "final_save steps save_steps s0 = (if (steps - 1) mod save_steps \<noteq> 0 then [s0 + steps] else [])"


text \<open>
  Two wrappers that agree on what an evaluation reads (the parameters, the step counter
  and the model directory) and whose scalar logs agree beyond the positions \<open>a\<close> and
  \<open>b\<close>: the relation that two evaluations running side by side maintain.
\<close>

definition same_model :: "nat \<Rightarrow> nat \<Rightarrow> ('p, 'v) state \<Rightarrow> ('p, 'v) state \<Rightarrow> bool" where
  "same_model a b w w' =
     (params w = params w' \<and> step w = step w' \<and> model_dir w = model_dir w'
      \<and> a \<le> length (scalars w) \<and> b \<le> length (scalars w')
      \<and> drop a (scalars w) = drop b (scalars w'))"

section \<open>A small instance\<close>

text \<open>
  A concrete library, task and wrapper on which the functions above can be run: the
  parameters count the optimisation steps taken, generation reverses each row of
  tokens, and the task's metric counts the predictions equal to their targets.
\<close>

definition toy_library :: "(nat, unit, int) library" where
  "toy_library =
     \<lparr>load_state_dict = (\<lambda>p sd. (None, sd)),
      make_optimizer = (\<lambda>p. ()),
      train_batch = (\<lambda>opt p b. Inr ((), Suc p, 0, 0)),
      generate = (\<lambda>tr p rows. map rev rows),
      encode = map (\<lambda>c. int (of_char c)),
      decode = map (\<lambda>t. char_of (nat t)),
      pack_or_pad = (\<lambda>ex. ex),
      format_scalar = py_str\<rparr>"


definition toy_state :: "(nat, int) state" where
  "toy_state =
     \<lparr>params = 0, training = False, step = 0, model_dir = ''/tmp/hft5'',
      files = [], scalars = [], info_log = []\<rparr>"

definition toy_example :: "string \<Rightarrow> string \<Rightarrow> example" where
  "toy_example i t =
     \<lparr>inputs = map (\<lambda>c. int (of_char c)) i, inputs_mask = [],
      targets = map (\<lambda>c. int (of_char c)) t, targets_mask = [],
      inputs_plaintext = i, targets_plaintext = t\<rparr>"

definition toy_task :: "int task" where
  "toy_task =
     \<lparr>name = ''toy'', splits = [''train'', ''validation''],
      metric_fns = [\<lambda>target_lines predictions.
                      [(''matches'', int (length (filter (\<lambda>(t, p). t = p) (zip target_lines predictions))))]],
      postprocess_fn = (\<lambda>text ex is_target. text),
      task_dataset = (\<lambda>split. [toy_example ''a'' ''a'', toy_example ''ab'' ''ba'',
                                 toy_example ''abc'' ''abc'', toy_example ''b'' ''b'',
                                 toy_example ''ba'' ''ab''])\<rparr>"


section \<open>Numerals, file names and the checkpoint listing\<close>


lemma digit_val_digit_char: "d < 10 \<Longrightarrow> digit_val (digit_char d) = d"
  by (simp add: digit_val_def digit_char_def)



lemma foldl_str_nat: "foldl (\<lambda>a c. 10 * a + digit_val c) 0 (str_nat n) = n"
proof (induction n rule: str_nat.induct)
  case (1 n)
  show ?case
  proof (cases "n < 10")
    case True
    then show ?thesis by (simp add: str_nat.simps [of n] digit_val_digit_char)
  next
    case False
    with 1 show ?thesis by (simp add: str_nat.simps [of n] digit_val_digit_char)
  qed
qed

lemma int_of_digits_str_nat: "int_of_digits (str_nat n) = int n"
  by (simp add: int_of_digits_def foldl_str_nat)

lemma int_of_digits_py_str: "0 \<le> i \<Longrightarrow> int_of_digits (py_str i) = i"
  by (simp add: py_str_def int_of_digits_str_nat)

lemma is_digit_not_dot: "is_digit c \<Longrightarrow> c \<noteq> CHR ''.''"
  by (auto simp: is_digit_def)









lemma path_join_format:
  "path_join d (CHECKPOINT_FILE_FORMAT x) =
     (if d = [] \<or> last d = CHR ''/'' then d else d @ ''/'') @ CHECKPOINT_FILE_FORMAT x"
  by (simp add: path_join_def CHECKPOINT_FILE_FORMAT_def)










lemma py_str_inj: "0 \<le> a \<Longrightarrow> 0 \<le> b \<Longrightarrow> py_str a = py_str b \<Longrightarrow> a = b"
  by (metis int_of_digits_py_str)

lemma path_join_inj:
  "path_join d (CHECKPOINT_FILE_FORMAT f) = path_join d (CHECKPOINT_FILE_FORMAT g) \<Longrightarrow>
   CHECKPOINT_FILE_FORMAT f = CHECKPOINT_FILE_FORMAT g"
  by (simp add: path_join_format)

lemma checkpoint_path_inj:
  "0 \<le> a \<Longrightarrow> 0 \<le> b \<Longrightarrow> checkpoint_path d a = checkpoint_path d b \<Longrightarrow> a = b"
proof -
  assume nn: "0 \<le> a" "0 \<le> b" and eq: "checkpoint_path d a = checkpoint_path d b"
  from eq have "CHECKPOINT_FILE_FORMAT (py_str a) = CHECKPOINT_FILE_FORMAT (py_str b)"
    unfolding checkpoint_path_def by (rule path_join_inj)
  then have "py_str a = py_str b"
    by (simp add: CHECKPOINT_FILE_FORMAT_def)
  with nn show ?thesis by (rule py_str_inj)
qed

lemma checkpoint_path_eq_iff:
  "0 \<le> a \<Longrightarrow> 0 \<le> b \<Longrightarrow> (checkpoint_path d a = checkpoint_path d b) = (a = b)"
  using checkpoint_path_inj by blast


text \<open>The paths of the file system after saves, and what the checkpoint glob lists of them.\<close>

lemma set_add_new: "set (add_new p g) = insert p (set g)"
  by (auto simp: add_new_def)

lemma set_fold_add_new: "set (fold add_new ps g) = set g \<union> set ps"
  by (induction ps arbitrary: g) (auto simp: set_add_new)







lemma keys_save_checkpoint:
  "map fst (files (save_checkpoint s w)) = add_new (checkpoint_path (model_dir w) s) (map fst (files w))"
  by (simp add: save_checkpoint_def update_keys add_new_def)

lemma save_checkpoint_frame [simp]:
  "step (save_checkpoint s w) = step w"
  "model_dir (save_checkpoint s w) = model_dir w"
  "training (save_checkpoint s w) = training w"
  "params (save_checkpoint s w) = params w"
  "info_log (save_checkpoint s w) = info_log w"
  "scalars (save_checkpoint s w) = scalars w"
  by (simp_all add: save_checkpoint_def)




section \<open>The training loop's saves\<close>

lemma save_points_Nil [simp]: "save_points i 0 k s0 = []"
  by (simp add: save_points_def)

lemma save_points_Suc:
  "save_points i (Suc n) k s0 =
     (if int i mod k = 0 then [s0] else []) @ save_points (Suc i) n k (s0 + 1)"
proof -
  have "[0..<Suc n] = 0 # map Suc [0..<n]"
    by (simp add: upt_conv_Cons map_Suc_upt del: upt_Suc)
  then show ?thesis
    by (simp add: save_points_def filter_map comp_def ac_simps del: upt_Suc)
qed

lemma save_points_nonneg: "0 \<le> s0 \<Longrightarrow> \<forall>s \<in> set (save_points i n k s0). 0 \<le> s"
  by (auto simp: save_points_def)

lemma save_points_below: "s \<in> set (save_points i n k s0) \<Longrightarrow> s < s0 + int n"
  by (auto simp: save_points_def)

lemma train_iteration_run:
  assumes k: "k \<noteq> 0" and ok: "\<And>opt p b. \<exists>r. train_batch lib opt p b = Inr r"
  shows "\<exists>opt' w'. train_iteration lib k (i, b) (ts, opt, w) = (None, Some (int i), opt', w')
     \<and> step w' = step w + 1 \<and> model_dir w' = model_dir w \<and> training w' = training w
     \<and> info_log w' = info_log w @ map (\<lambda>s. ''Saving checkpoint for step '' @ py_str s)
                                      (if int i mod k = 0 then [step w] else [])
     \<and> map fst (files w')
         = fold add_new (map (checkpoint_path (model_dir w)) (if int i mod k = 0 then [step w] else []))
             (map fst (files w))"
proof -
  define w1 where "w1 = (if int i mod k = 0
                      then save_checkpoint (step w)
                             (w\<lparr>info_log := info_log w @
                                  [''Saving checkpoint for step '' @ py_str (step w)]\<rparr>)
                      else w)"
  obtain opt' p' loss rate where r: "train_batch lib opt (params w) b = Inr (opt', p', loss, rate)"
    using ok [of opt "params w" b] by (metis prod_cases4)
  have g: "map fst (files w1)
         = fold add_new (map (checkpoint_path (model_dir w)) (if int i mod k = 0 then [step w] else []))
             (map fst (files w))"
    by (simp add: w1_def keys_save_checkpoint)
  have "train_iteration lib k (i, b) (ts, opt, w) =
        (None, Some (int i), opt',
                    w1\<lparr>params := p',
                       scalars := scalars w1 @ [(''loss'', loss, step w1), (''step/s'', rate, step w1)],
                       step := step w1 + 1\<rparr>)"
    using k r by (simp add: train_iteration_def Let_def w1_def)
  moreover have "step w1 = step w" "model_dir w1 = model_dir w" "training w1 = training w"
    "info_log w1 = info_log w @ map (\<lambda>s. ''Saving checkpoint for step '' @ py_str s)
                                      (if int i mod k = 0 then [step w] else [])"
    by (simp_all add: w1_def)
  ultimately show ?thesis using g by simp
qed

lemma train_loop_run:
  assumes k: "k \<noteq> 0" and ok: "\<And>opt p b. \<exists>r. train_batch lib opt p b = Inr r"
  shows "\<exists>opt' w'. for_each (train_iteration lib k) (List.enumerate i bs) (ts, opt, w)
         = (None, (if bs = [] then ts else Some (int i + int (length bs) - 1)), opt', w')
     \<and> step w' = step w + int (length bs) \<and> model_dir w' = model_dir w \<and> training w' = training w
     \<and> info_log w' = info_log w @ map (\<lambda>s. ''Saving checkpoint for step '' @ py_str s)
                                      (save_points i (length bs) k (step w))
     \<and> map fst (files w')
         = fold add_new (map (checkpoint_path (model_dir w)) (save_points i (length bs) k (step w)))
             (map fst (files w))"
proof (induction bs arbitrary: i ts opt w)
  case Nil
  then show ?case by simp
next
  case (Cons b bs)
  obtain opt1 w1 where it: "train_iteration lib k (i, b) (ts, opt, w) = (None, Some (int i), opt1, w1)"
    and w1: "step w1 = step w + 1" "model_dir w1 = model_dir w" "training w1 = training w"
     "info_log w1 = info_log w @ map (\<lambda>s. ''Saving checkpoint for step '' @ py_str s)
                                      (if int i mod k = 0 then [step w] else [])"
     "map fst (files w1)
         = fold add_new (map (checkpoint_path (model_dir w)) (if int i mod k = 0 then [step w] else []))
             (map fst (files w))"
    using train_iteration_run [OF k ok, of i b ts opt w] by blast
  from Cons.IH [of "Suc i" "Some (int i)" opt1 w1]
  obtain opt' w' where loop: "for_each (train_iteration lib k) (List.enumerate (Suc i) bs) (Some (int i), opt1, w1)
         = (None, (if bs = [] then Some (int i) else Some (int (Suc i) + int (length bs) - 1)), opt', w')"
    and w': "step w' = step w1 + int (length bs)" "model_dir w' = model_dir w1" "training w' = training w1"
     "info_log w' = info_log w1 @ map (\<lambda>s. ''Saving checkpoint for step '' @ py_str s)
                                      (save_points (Suc i) (length bs) k (step w1))"
     "map fst (files w')
         = fold add_new (map (checkpoint_path (model_dir w1)) (save_points (Suc i) (length bs) k (step w1)))
             (map fst (files w1))"
    by blast
  have "for_each (train_iteration lib k) (List.enumerate i (b # bs)) (ts, opt, w)
         = (None, Some (int i + int (length (b # bs)) - 1), opt', w')"
    using it loop by (cases "bs = []") simp_all
  moreover have "step w' = step w + int (length (b # bs))"
    using w1 w' by simp
  moreover have "info_log w' = info_log w @ map (\<lambda>s. ''Saving checkpoint for step '' @ py_str s)
                                      (save_points i (length (b # bs)) k (step w))"
    using w1 w' by (simp add: save_points_Suc)
  moreover have "map fst (files w')
         = fold add_new (map (checkpoint_path (model_dir w)) (save_points i (length (b # bs)) k (step w)))
             (map fst (files w))"
    using w1 w' by (simp add: save_points_Suc)
  ultimately show ?case using w1 w' by simp
qed

lemma batched_nonempty: "0 < n \<Longrightarrow> xs \<noteq> [] \<Longrightarrow> batched n xs \<noteq> []"
  by (subst batched.simps) simp

lemma batched_Nil [simp]: "batched n [] = []"
  by (subst batched.simps) simp


lemma length_islice_cycle: "ds \<noteq> [] \<Longrightarrow> length (islice_cycle ds n) = n"
  by (simp add: islice_cycle_def)

lemma get_dataset_nonempty:
  assumes "0 < bs" "task_dataset tsk split \<noteq> []"
  shows "\<exists>ds. get_dataset lib tsk split bs = Inr ds \<and> ds \<noteq> []"
  using assms by (simp add: get_dataset_def tokens_to_batches_def batched_nonempty)

lemma train_run:
  assumes k: "k \<noteq> 0" and ok: "\<And>opt p b. \<exists>r. train_batch lib opt p b = Inr r"
    and bs: "0 < bs" and ds: "task_dataset tsk split \<noteq> []"
    and n: "1 \<le> n"
  shows "\<exists>w'. train lib tsk n k split bs w = (None, w')
     \<and> step w' = step w + n \<and> model_dir w' = model_dir w
     \<and> info_log w' = info_log w
          @ map (\<lambda>s. ''Saving checkpoint for step '' @ py_str s) (save_points 0 (nat n) k (step w))
          @ map (\<lambda>s. ''Saving final checkpoint for step '' @ py_str s) (final_save n k (step w))
     \<and> map fst (files w')
         = fold add_new (map (checkpoint_path (model_dir w))
                            (save_points 0 (nat n) k (step w) @ final_save n k (step w)))
             (map fst (files w))"
proof -
  obtain batches where b: "get_dataset lib tsk split bs = Inr batches" "batches \<noteq> []"
    using get_dataset_nonempty [OF bs ds] by blast
  let ?w1 = "w\<lparr>training := True\<rparr>"
  let ?xs = "islice_cycle batches (nat n)"
  have len: "length ?xs = nat n" using b(2) by (rule length_islice_cycle)
  then have ne: "?xs \<noteq> []" using n by auto
  from train_loop_run [OF k ok, of 0 ?xs None "make_optimizer lib (params ?w1)" ?w1]
  obtain opt' w2 where loop: "for_each (train_iteration lib k) (List.enumerate 0 ?xs)
           (None, make_optimizer lib (params ?w1), ?w1) = (None, Some (n - 1), opt', w2)"
    and w2: "step w2 = step w + n" "model_dir w2 = model_dir w"
      "info_log w2 = info_log w @ map (\<lambda>s. ''Saving checkpoint for step '' @ py_str s)
                                      (save_points 0 (nat n) k (step w))"
      "map fst (files w2)
         = fold add_new (map (checkpoint_path (model_dir w)) (save_points 0 (nat n) k (step w)))
             (map fst (files w))"
    using ne len n by auto
  let ?w3 = "save_checkpoint (step w2)
               (w2\<lparr>info_log := info_log w2 @ [''Saving final checkpoint for step '' @ py_str (step w2)]\<rparr>)"
  have tr: "train lib tsk n k split bs w = (None, if (n - 1) mod k \<noteq> 0 then ?w3 else w2)"
    using b(1) n k loop by (simp add: train_def Let_def)
  have g3: "map fst (files ?w3)
      = add_new (checkpoint_path (model_dir w) (step w + n)) (map fst (files w2))"
    using w2(1,2) by (simp add: keys_save_checkpoint)
  show ?thesis
  proof (cases "(n - 1) mod k \<noteq> 0")
    case True
    then show ?thesis using tr w2 g3 by (simp add: final_save_def)
  next
    case False
    then show ?thesis using tr w2 by (simp add: final_save_def)
  qed
qed

text \<open>The regular expression and the glob on some paths: the step is taken from the
  file name even below a directory that looks like a checkpoint, a greedy run of digits
  gives one back to the pattern's dot, a file the glob lists need not match the regular
  expression, and a bracket in the directory's name is a bracket expression.\<close>

lemma step_regex_examples:
  "step_regex_match ''/tmp/hft5/model-1000.checkpoint'' = Some ''1000''"
  "step_regex_match ''/tmp/model-7/model-12.checkpoint'' = Some ''12''"
  "step_regex_match ''model-12checkpoint.checkpoint'' = Some ''1''"
  "step_regex_match ''/tmp/hft5/model-abc.checkpoint'' = None"
  "step_regex_match ''/tmp/hft5/model--1.checkpoint'' = None"
  "glob_match (checkpoint_pattern ''/tmp/hft5'') ''/tmp/hft5/model-abc.checkpoint''"
  "\<not> glob_match (checkpoint_pattern ''/tmp/hft5'') ''/tmp/hft5/sub/model-1.checkpoint''"
  "\<not> glob_match (checkpoint_pattern ''/tmp/hft5[1]'') ''/tmp/hft5[1]/model-1.checkpoint''"
  "glob_match (checkpoint_pattern ''/tmp/hft5[1]'') ''/tmp/hft51/model-1.checkpoint''"
  by code_simp+

text \<open>Loading the latest checkpoint after saves at the steps 3, 7 and 1.\<close>

lemma load_latest_after_saves:
  "step (snd (load_latest_checkpoint toy_library
            (save_checkpoint 1 (save_checkpoint 7 (save_checkpoint 3 toy_state))))) = 7"
  by code_simp

text \<open>
  An empty dataset leaves the loop without an iteration, whatever the number of steps.
  And when no file stood at the checkpoint path of the final step counter before, a
  completed run has written one there exactly when its last loop index is not a
  multiple of the save interval.
\<close>

lemma islice_cycle_0 [simp]: "islice_cycle ds 0 = []"
  by (simp add: islice_cycle_def)

lemma train_empty_dataset_unbound:
  assumes "task_dataset tsk split = []" "0 < bs" "0 \<le> n"
  shows "fst (train lib tsk n k split bs w) = Some UnboundLocalError"
  using assms
  by (simp add: train_def get_dataset_def tokens_to_batches_def islice_cycle_def Let_def)

lemma train_saves_final_state_iff:
  assumes k: "k \<noteq> 0" and ok: "\<And>opt p b. \<exists>r. train_batch lib opt p b = Inr r"
    and nonneg: "0 \<le> step w" and bs: "0 < bs" and ds: "task_dataset tsk split \<noteq> []"
    and n: "1 \<le> n"
    and fresh: "checkpoint_path (model_dir w) (step w + n) \<notin> fst ` set (files w)"
  shows "checkpoint_path (model_dir w) (step (snd (train lib tsk n k split bs w)))
           \<in> fst ` set (files (snd (train lib tsk n k split bs w)))
         \<longleftrightarrow> (n - 1) mod k \<noteq> 0"
proof -
  from train_run [OF k ok bs ds n]
  obtain w' where w': "train lib tsk n k split bs w = (None, w')" "step w' = step w + n"
    "map fst (files w')
         = fold add_new (map (checkpoint_path (model_dir w))
                            (save_points 0 (nat n) k (step w) @ final_save n k (step w)))
             (map fst (files w))"
    by blast
  have keys: "fst ` set (files w') = fst ` set (files w)
        \<union> checkpoint_path (model_dir w) ` set (save_points 0 (nat n) k (step w))
        \<union> checkpoint_path (model_dir w) ` set (final_save n k (step w))"
    using arg_cong [OF w'(3), of set] by (simp add: set_fold_add_new image_Un Un_assoc)
  have nn: "\<forall>s \<in> set (save_points 0 (nat n) k (step w)). 0 \<le> s"
    using nonneg by (rule save_points_nonneg)
  have below: "step w + n \<notin> set (save_points 0 (nat n) k (step w))"
    using save_points_below [of "step w + n" 0 "nat n" k "step w"] n by auto
  have "checkpoint_path (model_dir w) (step w + n)
          \<in> checkpoint_path (model_dir w) ` set (save_points 0 (nat n) k (step w))
        \<longleftrightarrow> step w + n \<in> set (save_points 0 (nat n) k (step w))"
    using nn nonneg n by (auto simp: checkpoint_path_eq_iff)
  with below have notin: "checkpoint_path (model_dir w) (step w + n)
          \<notin> checkpoint_path (model_dir w) ` set (save_points 0 (nat n) k (step w))"
    by simp
  show ?thesis
  proof (cases "(n - 1) mod k \<noteq> 0")
    case True
    then show ?thesis using w'(1,2) keys by (simp add: final_save_def)
  next
    case False
    then show ?thesis using w'(1,2) keys notin fresh by (simp add: final_save_def)
  qed
qed

section \<open>The claims about the checkpoint store and the training loop\<close>



text \<open>
  Claim C2, evaluated where it fails.  With 5 steps and a save interval of 4 the last
  loop index, 4, is a multiple of the interval, so no trailing checkpoint is written;
  the checkpoint saved at loop index 4 was taken before the fifth optimisation step.
  The run completes with the step counter and the parameters at 5, while the only
  checkpoint files are those of the steps 0 and 4, holding the parameters 0 and 4: no
  checkpoint exists at the final value of the step counter.
\<close>

theorem train_final_state_not_saved:
  "fst (train toy_library toy_task 5 4 ''train'' 2 toy_state) = None
   \<and> step (snd (train toy_library toy_task 5 4 ''train'' 2 toy_state)) = 5
   \<and> params (snd (train toy_library toy_task 5 4 ''train'' 2 toy_state)) = 5
   \<and> files (snd (train toy_library toy_task 5 4 ''train'' 2 toy_state))
       = [(''/tmp/hft5/model-0.checkpoint'', StateDict 0), (''/tmp/hft5/model-4.checkpoint'', StateDict 4)]
   \<and> get_all_checkpoint_steps None (snd (train toy_library toy_task 5 4 ''train'' 2 toy_state))
       = Inr (Some [0, 4])"
  by code_simp




text \<open>
  Claim C9.  With \<^verbatim>\<open>steps = 0\<close> (and a batch size the dataset pipeline accepts) the loop
  body never runs, \<^verbatim>\<open>train_step\<close> stays unbound and the trailing-checkpoint check
  raises \<^verbatim>\<open>UnboundLocalError\<close>, whatever the save interval; and \<^verbatim>\<open>train\<close> returns
  normally only when \<^verbatim>\<open>steps\<close> is at least 1.
\<close>

theorem train_zero_steps_unbound:
  "(0 < bs \<longrightarrow> fst (train lib tsk 0 k split bs w) = Some UnboundLocalError)
   \<and> (fst (train lib tsk n k split bs w) = None \<longrightarrow> 1 \<le> n)"
proof
  show "0 < bs \<longrightarrow> fst (train lib tsk 0 k split bs w) = Some UnboundLocalError"
    by (simp add: train_def get_dataset_def tokens_to_batches_def Let_def)
next
  show "fst (train lib tsk n k split bs w) = None \<longrightarrow> 1 \<le> n"
  proof (rule impI, rule ccontr)
    assume ok: "fst (train lib tsk n k split bs w) = None" and "\<not> 1 \<le> n"
    then consider "n < 0" | "n = 0" by linarith
    then show False
    proof cases
      case 1
      then show False using ok
        by (simp add: train_def Let_def split: sum.splits)
    next
      case 2
      then show False using ok
        by (simp add: train_def Let_def split: sum.splits)
    qed
  qed
qed

theorem train_zero_steps_unbound_witness:
  "(0::int) < 2
   \<and> fst (train toy_library toy_task 0 4 ''train'' 2 toy_state) = Some UnboundLocalError
   \<and> fst (train toy_library toy_task 1 4 ''train'' 2 toy_state) = None \<and> (1::int) \<le> 1"
proof -
  have h: "fst (train toy_library toy_task 1 4 ''train'' 2 toy_state) = None" by code_simp
  show ?thesis
    using train_zero_steps_unbound [of 2 toy_library toy_task 4 "''train''" toy_state 1] h by simp
qed

text \<open>
  Claim C10.  \<^verbatim>\<open>load_checkpoint\<close> assigns the step counter only after the parameters
  have been loaded: when it raises, the step counter is what it was, and when it
  returns, the step counter is the requested step.  It raises when the checkpoint path
  does not exist (\<^verbatim>\<open>FileNotFoundError\<close>), when the file is not a pickled state
  dictionary, and when \<^verbatim>\<open>load_state_dict\<close> raises.
\<close>

theorem load_checkpoint_step_counter:
  "(fst (load_checkpoint lib stp d w) = None \<longrightarrow> step (snd (load_checkpoint lib stp d w)) = stp)
   \<and> (fst (load_checkpoint lib stp d w) \<noteq> None \<longrightarrow> step (snd (load_checkpoint lib stp d w)) = step w)
   \<and> (map_of (files w) (checkpoint_path (py_or d (model_dir w)) stp) = None \<longrightarrow>
        fst (load_checkpoint lib stp d w)
          = Some (FileNotFoundError (checkpoint_path (py_or d (model_dir w)) stp)))
   \<and> ((\<exists>t. map_of (files w) (checkpoint_path (py_or d (model_dir w)) stp) = Some (TextFile t)) \<longrightarrow>
        fst (load_checkpoint lib stp d w) = Some UnpicklingError)
   \<and> ((\<exists>sd e. map_of (files w) (checkpoint_path (py_or d (model_dir w)) stp) = Some (StateDict sd)
          \<and> fst (load_state_dict lib (params w) sd) = Some e) \<longrightarrow>
        fst (load_checkpoint lib stp d w) \<noteq> None)"
  by (auto simp: load_checkpoint_def torch_load_def Let_def
           split: sum.splits option.splits content.splits prod.splits)

theorem load_checkpoint_step_counter_witness:
  "fst (load_checkpoint toy_library 9 None toy_state) = Some (FileNotFoundError ''/tmp/hft5/model-9.checkpoint'')
   \<and> step (snd (load_checkpoint toy_library 9 None toy_state)) = step toy_state
   \<and> fst (load_checkpoint toy_library 7 None (save_checkpoint 7 toy_state)) = None
   \<and> step (snd (load_checkpoint toy_library 7 None (save_checkpoint 7 toy_state))) = 7"
proof -
  have h1: "fst (load_checkpoint toy_library 9 None toy_state)
            = Some (FileNotFoundError ''/tmp/hft5/model-9.checkpoint'')" by code_simp
  have h2: "fst (load_checkpoint toy_library 7 None (save_checkpoint 7 toy_state)) = None" by code_simp
  show ?thesis
    using load_checkpoint_step_counter [of toy_library 9 None toy_state]
      load_checkpoint_step_counter [of toy_library 7 None "save_checkpoint 7 toy_state"] h1 h2
    by simp
qed

section \<open>Helper lemmas for the prediction driver and the evaluation\<close>

lemma map_of_write_lines [simp]:
  "map_of (files (write_lines_to_file ls f w)) f = Some (TextFile (join_lines ls))"
  by (simp add: write_lines_to_file_def update_conv' split: option.splits)

lemma write_lines_frame [simp]:
  "step (write_lines_to_file ls f w) = step w"
  "model_dir (write_lines_to_file ls f w) = model_dir w"
  "training (write_lines_to_file ls f w) = training w"
  "params (write_lines_to_file ls f w) = params w"
  "info_log (write_lines_to_file ls f w) = info_log w"
  "scalars (write_lines_to_file ls f w) = scalars w"
  by (simp_all add: write_lines_to_file_def Let_def)

lemma batched_map: "batched n (map f xs) = map (map f) (batched n xs)"
proof (induction n xs rule: batched.induct)
  case (1 n xs)
  show ?case
  proof (cases "n = 0 \<or> xs = []")
    case True
    then show ?thesis by (auto simp: batched.simps [of n])
  next
    case False
    with 1 show ?thesis
      by (subst batched.simps, subst (2) batched.simps) (simp add: take_map drop_map)
  qed
qed


lemma file_lines_Nil [simp]: "file_lines [] = []"
  by (subst file_lines.simps) simp





lemma log_scores_frame [simp]:
  "step (log_scores lib tsk scores w) = step w"
  "model_dir (log_scores lib tsk scores w) = model_dir w"
  "training (log_scores lib tsk scores w) = training w"
  "params (log_scores lib tsk scores w) = params w"
  "files (log_scores lib tsk scores w) = files w"
  unfolding log_scores_def by (induction scores arbitrary: w; simp add: split_def Let_def)+

lemma scalars_log_scores:
  "scalars (log_scores lib tsk scores w)
     = scalars w @ map (\<lambda>(metric_name, metric_value).
                          (''eval/'' @ name tsk @ ''/'' @ metric_name, metric_value, step w)) scores"
proof (induction scores arbitrary: w)
  case Nil
  then show ?case by (simp add: log_scores_def)
next
  case (Cons s scores)
  have "log_scores lib tsk (s # scores) w
        = log_scores lib tsk scores (log_scores lib tsk [s] w)"
    by (simp add: log_scores_def)
  then show ?case
    using Cons [of "log_scores lib tsk [s] w"]
    by (simp add: split_def) (simp add: log_scores_def split_def Let_def)
qed


lemma fold_log_scores_frame [simp]:
  "step (fold (\<lambda>metric_fn. log_scores lib tsk (F metric_fn)) fns w) = step w"
  "model_dir (fold (\<lambda>metric_fn. log_scores lib tsk (F metric_fn)) fns w) = model_dir w"
  "training (fold (\<lambda>metric_fn. log_scores lib tsk (F metric_fn)) fns w) = training w"
  "params (fold (\<lambda>metric_fn. log_scores lib tsk (F metric_fn)) fns w) = params w"
  "files (fold (\<lambda>metric_fn. log_scores lib tsk (F metric_fn)) fns w) = files w"
  by (induction fns arbitrary: w; simp)+

lemma scalars_fold_log_scores:
  "scalars (fold (\<lambda>metric_fn. log_scores lib tsk (F metric_fn)) fns w)
     = scalars w @ concat (map (\<lambda>metric_fn. map (\<lambda>(metric_name, metric_value).
                          (''eval/'' @ name tsk @ ''/'' @ metric_name, metric_value, step w)) (F metric_fn)) fns)"
  by (induction fns arbitrary: w) (simp_all add: scalars_log_scores)

lemma fold_skip_notices:
  "fold (\<lambda>tsk w'. if split \<notin> set (splits tsk)
                    then w'\<lparr>info_log := info_log w' @ [skip_notice]\<rparr> else w') ts w
   = w\<lparr>info_log := info_log w
         @ replicate (length (filter (\<lambda>tsk. split \<notin> set (splits tsk)) ts)) skip_notice\<rparr>"
proof (induction ts arbitrary: w)
  case Nil
  then show ?case by simp
next
  case (Cons t ts)
  then show ?case by (simp add: replicate_append_same)
qed

lemma filter_none: "\<forall>t \<in> set ts. \<not> P t \<Longrightarrow> filter P ts = []"
  by (induction ts) auto

lemma for_each_rel:
  assumes body: "\<And>x s t. R s t \<Longrightarrow> fst (body x s) = fst (body x t) \<and> R (snd (body x s)) (snd (body x t))"
  shows "R s t \<Longrightarrow> fst (for_each body xs s) = fst (for_each body xs t)
                   \<and> R (snd (for_each body xs s)) (snd (for_each body xs t))"
proof (induction xs arbitrary: s t)
  case Nil
  then show ?case by simp
next
  case (Cons x xs)
  obtain e s' where s': "body x s = (e, s')" by (cases "body x s")
  obtain e' t' where t': "body x t = (e', t')" by (cases "body x t")
  from body [OF Cons.prems, of x] s' t' have ee: "e = e'" and r: "R s' t'" by simp_all
  show ?case
  proof (cases e)
    case None
    then show ?thesis using s' t' ee Cons.IH [OF r] by simp
  next
    case (Some err)
    then show ?thesis using s' t' ee r by simp
  qed
qed

lemma for_each_inv:
  assumes body: "\<And>x s. I s \<Longrightarrow> I (snd (body x s))"
  shows "I s \<Longrightarrow> I (snd (for_each body xs s))"
proof (induction xs arbitrary: s)
  case Nil
  then show ?case by simp
next
  case (Cons x xs)
  obtain e s' where s': "body x s = (e, s')" by (cases "body x s")
  from body [OF Cons.prems, of x] s' have i: "I s'" by simp
  show ?case
  proof (cases e)
    case None
    then show ?thesis using s' Cons.IH [OF i] by simp
  next
    case (Some err)
    then show ?thesis using s' i by simp
  qed
qed

lemma same_model_files:
  "same_model a b w w' \<Longrightarrow> same_model a b (write_lines_to_file ls f w) (write_lines_to_file ls' f' w')"
  by (simp add: same_model_def)

lemma same_model_info_log:
  "same_model a b w w' \<Longrightarrow> same_model a b (w\<lparr>info_log := l\<rparr>) (w'\<lparr>info_log := l'\<rparr>)"
  by (simp add: same_model_def)

lemma same_model_training:
  "same_model a b w w' \<Longrightarrow> same_model a b (w\<lparr>training := x\<rparr>) (w'\<lparr>training := y\<rparr>)"
  by (simp add: same_model_def)

lemma cache_task_rel:
  assumes "same_model a b w w'"
  shows "fst (cache_task lib split bs sd tsk (ct, ce, w)) = fst (cache_task lib split bs sd tsk (ct, ce, w'))
    \<and> fst (snd (cache_task lib split bs sd tsk (ct, ce, w)))
        = fst (snd (cache_task lib split bs sd tsk (ct, ce, w')))
    \<and> fst (snd (snd (cache_task lib split bs sd tsk (ct, ce, w))))
        = fst (snd (snd (cache_task lib split bs sd tsk (ct, ce, w'))))
    \<and> same_model a b (snd (snd (snd (cache_task lib split bs sd tsk (ct, ce, w)))))
                      (snd (snd (snd (cache_task lib split bs sd tsk (ct, ce, w')))))"
  using assms
  by (auto simp: cache_task_def Let_def same_model_files split: sum.splits)

lemma cache_task_frame:
  "params (snd (snd (snd (cache_task lib split bs sd tsk (ct, ce, w))))) = params w
   \<and> step (snd (snd (snd (cache_task lib split bs sd tsk (ct, ce, w))))) = step w
   \<and> model_dir (snd (snd (snd (cache_task lib split bs sd tsk (ct, ce, w))))) = model_dir w
   \<and> scalars (snd (snd (snd (cache_task lib split bs sd tsk (ct, ce, w))))) = scalars w"
  by (auto simp: cache_task_def Let_def split: sum.splits)

lemma eval_task_rel:
  assumes "same_model a b w w'" "training w = training w'"
  shows "fst (eval_task lib sd ct ce tsk w) = fst (eval_task lib sd ct ce tsk w')
    \<and> same_model a b (snd (eval_task lib sd ct ce tsk w)) (snd (eval_task lib sd ct ce tsk w'))
    \<and> training (snd (eval_task lib sd ct ce tsk w)) = training (snd (eval_task lib sd ct ce tsk w'))"
proof -
  have p: "predict_batch lib tsk w = predict_batch lib tsk w'"
    using assms by (simp add: predict_batch_def same_model_def fun_eq_iff)
  show ?thesis
    using assms
    by (auto simp: eval_task_def Let_def p same_model_def scalars_fold_log_scores
             split: option.splits)
qed

lemma eval_task_frame:
  "params (snd (eval_task lib sd ct ce tsk w)) = params w
   \<and> step (snd (eval_task lib sd ct ce tsk w)) = step w
   \<and> model_dir (snd (eval_task lib sd ct ce tsk w)) = model_dir w
   \<and> length (scalars w) \<le> length (scalars (snd (eval_task lib sd ct ce tsk w)))"
  by (auto simp: eval_task_def Let_def scalars_fold_log_scores split: option.splits)

lemma eval_current_model_rel:
  assumes "same_model a b w w'"
  shows "fst (eval_current_model lib sd ct ce tasks w) = fst (eval_current_model lib sd ct ce tasks w')
    \<and> same_model a b (snd (eval_current_model lib sd ct ce tasks w))
                      (snd (eval_current_model lib sd ct ce tasks w'))"
proof -
  let ?R = "\<lambda>s t. same_model a b s t \<and> training s = training t"
  have "?R (w\<lparr>training := False\<rparr>) (w'\<lparr>training := False\<rparr>)"
    using assms by (simp add: same_model_training)
  then have "fst (for_each (eval_task lib sd ct ce) tasks (w\<lparr>training := False\<rparr>))
           = fst (for_each (eval_task lib sd ct ce) tasks (w'\<lparr>training := False\<rparr>))
      \<and> ?R (snd (for_each (eval_task lib sd ct ce) tasks (w\<lparr>training := False\<rparr>)))
            (snd (for_each (eval_task lib sd ct ce) tasks (w'\<lparr>training := False\<rparr>)))"
  proof (rule for_each_rel [where R = ?R, rotated])
    fix x and s t :: "('a, 'b) state"
    assume "?R s t"
    then show "fst (eval_task lib sd ct ce x s) = fst (eval_task lib sd ct ce x t)
       \<and> ?R (snd (eval_task lib sd ct ce x s)) (snd (eval_task lib sd ct ce x t))"
      using eval_task_rel [of a b s t lib sd ct ce x] by simp
  qed
  then show ?thesis by (simp add: eval_current_model_def)
qed

lemma eval_current_model_frame:
  "params (snd (eval_current_model lib sd ct ce tasks w)) = params w
   \<and> step (snd (eval_current_model lib sd ct ce tasks w)) = step w
   \<and> model_dir (snd (eval_current_model lib sd ct ce tasks w)) = model_dir w
   \<and> length (scalars w) \<le> length (scalars (snd (eval_current_model lib sd ct ce tasks w)))"
proof -
  let ?I = "\<lambda>s. params s = params w \<and> step s = step w \<and> model_dir s = model_dir w
                \<and> length (scalars w) \<le> length (scalars s)"
  have "?I (w\<lparr>training := False\<rparr>)" by simp
  then have "?I (snd (for_each (eval_task lib sd ct ce) tasks (w\<lparr>training := False\<rparr>)))"
  proof (rule for_each_inv [where I = ?I, rotated])
    fix x and s :: "('a, 'b) state"
    assume "?I s"
    then show "?I (snd (eval_task lib sd ct ce x s))"
      using eval_task_frame [of lib sd ct ce x s] by auto
  qed
  then show ?thesis by (simp add: eval_current_model_def)
qed

lemma cache_loop_rel:
  assumes "same_model a b w w'"
  shows "fst (for_each (cache_task lib split bs sd) tasks (ct, ce, w))
           = fst (for_each (cache_task lib split bs sd) tasks (ct, ce, w'))
    \<and> fst (snd (for_each (cache_task lib split bs sd) tasks (ct, ce, w)))
        = fst (snd (for_each (cache_task lib split bs sd) tasks (ct, ce, w')))
    \<and> fst (snd (snd (for_each (cache_task lib split bs sd) tasks (ct, ce, w))))
        = fst (snd (snd (for_each (cache_task lib split bs sd) tasks (ct, ce, w'))))
    \<and> same_model a b (snd (snd (snd (for_each (cache_task lib split bs sd) tasks (ct, ce, w)))))
                      (snd (snd (snd (for_each (cache_task lib split bs sd) tasks (ct, ce, w')))))"
proof -
  let ?R = "\<lambda>s t. fst s = fst t \<and> fst (snd s) = fst (snd t)
                  \<and> same_model a b (snd (snd s)) (snd (snd t))"
  have "?R (ct, ce, w) (ct, ce, w')" using assms by simp
  then have "fst (for_each (cache_task lib split bs sd) tasks (ct, ce, w))
           = fst (for_each (cache_task lib split bs sd) tasks (ct, ce, w'))
     \<and> ?R (snd (for_each (cache_task lib split bs sd) tasks (ct, ce, w)))
           (snd (for_each (cache_task lib split bs sd) tasks (ct, ce, w')))"
  proof (rule for_each_rel [where R = ?R, rotated])
    fix x and s t :: "('a, 'b) eval_cache"
    assume r: "?R s t"
    obtain ct1 ce1 w1 where s: "s = (ct1, ce1, w1)" by (cases s)
    obtain ct2 ce2 w2 where t: "t = (ct2, ce2, w2)" by (cases t)
    from r s t have "ct1 = ct2" "ce1 = ce2" "same_model a b w1 w2" by simp_all
    then show "fst (cache_task lib split bs sd x s) = fst (cache_task lib split bs sd x t)
       \<and> ?R (snd (cache_task lib split bs sd x s)) (snd (cache_task lib split bs sd x t))"
      using cache_task_rel [of a b w1 w2 lib split bs sd x ct1 ce1] s t by simp
  qed
  then show ?thesis by simp
qed

lemma cache_loop_frame:
  "params (snd (snd (snd (for_each (cache_task lib split bs sd) tasks (ct, ce, w))))) = params w
   \<and> step (snd (snd (snd (for_each (cache_task lib split bs sd) tasks (ct, ce, w))))) = step w
   \<and> model_dir (snd (snd (snd (for_each (cache_task lib split bs sd) tasks (ct, ce, w))))) = model_dir w
   \<and> scalars (snd (snd (snd (for_each (cache_task lib split bs sd) tasks (ct, ce, w))))) = scalars w"
proof -
  let ?I = "\<lambda>s. params (snd (snd s)) = params w \<and> step (snd (snd s)) = step w
                \<and> model_dir (snd (snd s)) = model_dir w \<and> scalars (snd (snd s)) = scalars w"
  have "?I (ct, ce, w)" by simp
  then have "?I (snd (for_each (cache_task lib split bs sd) tasks (ct, ce, w)))"
  proof (rule for_each_inv [where I = ?I, rotated])
    fix x and s :: "('a, 'b) eval_cache"
    assume i: "?I s"
    obtain ct1 ce1 w1 where s: "s = (ct1, ce1, w1)" by (cases s)
    show "?I (snd (cache_task lib split bs sd x s))"
      using i cache_task_frame [of lib split bs sd x ct1 ce1 w1] s by simp
  qed
  then show ?thesis by simp
qed

lemma eval_current_rel:
  assumes "same_model a b w w'"
  shows "fst (eval lib m bs CsNone sd split w) = fst (eval lib m bs CsNone sd split w')
    \<and> same_model a b (snd (eval lib m bs CsNone sd split w)) (snd (eval lib m bs CsNone sd split w'))"
proof -
  let ?ts = "case m of Mixture ts \<Rightarrow> ts | Task t \<Rightarrow> [t]"
  let ?n = "replicate (length (filter (\<lambda>t. split \<notin> set (splits t)) ?ts)) skip_notice"
  let ?w1 = "w\<lparr>info_log := info_log w @ ?n\<rparr>"
  let ?w1' = "w'\<lparr>info_log := info_log w' @ ?n\<rparr>"
  let ?tasks = "filter (\<lambda>t. split \<in> set (splits t)) ?ts"
  let ?sd = "py_or sd (path_join (model_dir w) (split @ ''_eval''))"
  have dir: "model_dir w' = model_dir w" using assms by (simp add: same_model_def)
  have r1: "same_model a b ?w1 ?w1'" using assms by (rule same_model_info_log)
  obtain e ct ce w2 where c: "for_each (cache_task lib split bs ?sd) ?tasks (Map.empty, Map.empty, ?w1) = (e, ct, ce, w2)"
    by (metis prod_cases4)
  obtain e' ct' ce' w2' where c': "for_each (cache_task lib split bs ?sd) ?tasks (Map.empty, Map.empty, ?w1') = (e', ct', ce', w2')"
    by (metis prod_cases4)
  from cache_loop_rel [OF r1, of lib split bs ?sd ?tasks Map.empty Map.empty] c c'
  have eq: "e = e'" "ct = ct'" "ce = ce'" and r2: "same_model a b w2 w2'" by simp_all
  have ev: "eval lib m bs CsNone sd split w
      = (case e of Some err \<Rightarrow> (Some err, w2) | None \<Rightarrow> eval_current_model lib ?sd ct ce ?tasks w2)"
    using c by (simp add: eval_def Let_def fold_skip_notices split: option.splits)
  have ev': "eval lib m bs CsNone sd split w'
      = (case e of Some err \<Rightarrow> (Some err, w2') | None \<Rightarrow> eval_current_model lib ?sd ct ce ?tasks w2')"
    using c' eq dir by (simp add: eval_def Let_def fold_skip_notices split: option.splits)
  show ?thesis
  proof (cases e)
    case None
    then show ?thesis using ev ev' eval_current_model_rel [OF r2, of lib ?sd ct ce ?tasks] by simp
  next
    case (Some err)
    then show ?thesis using ev ev' r2 by simp
  qed
qed

lemma eval_current_frame:
  "params (snd (eval lib m bs CsNone sd split w)) = params w
   \<and> step (snd (eval lib m bs CsNone sd split w)) = step w
   \<and> model_dir (snd (eval lib m bs CsNone sd split w)) = model_dir w
   \<and> length (scalars w) \<le> length (scalars (snd (eval lib m bs CsNone sd split w)))"
proof -
  let ?ts = "case m of Mixture ts \<Rightarrow> ts | Task t \<Rightarrow> [t]"
  let ?n = "replicate (length (filter (\<lambda>t. split \<notin> set (splits t)) ?ts)) skip_notice"
  let ?w1 = "w\<lparr>info_log := info_log w @ ?n\<rparr>"
  let ?tasks = "filter (\<lambda>t. split \<in> set (splits t)) ?ts"
  let ?sd = "py_or sd (path_join (model_dir w) (split @ ''_eval''))"
  obtain e ct ce w2 where c: "for_each (cache_task lib split bs ?sd) ?tasks (Map.empty, Map.empty, ?w1) = (e, ct, ce, w2)"
    by (metis prod_cases4)
  from cache_loop_frame [of lib split bs ?sd ?tasks Map.empty Map.empty ?w1] c
  have f2: "params w2 = params w" "step w2 = step w" "model_dir w2 = model_dir w" "scalars w2 = scalars w"
    by simp_all
  have ev: "eval lib m bs CsNone sd split w
      = (case e of Some err \<Rightarrow> (Some err, w2) | None \<Rightarrow> eval_current_model lib ?sd ct ce ?tasks w2)"
    using c by (simp add: eval_def Let_def fold_skip_notices split: option.splits)
  show ?thesis
  proof (cases e)
    case None
    then show ?thesis using ev f2 eval_current_model_frame [of lib ?sd ct ce ?tasks w2] by simp
  next
    case (Some err)
    then show ?thesis using ev f2 by simp
  qed
qed

lemma eval_checkpoint_steps_cases:
  "eval lib m bs (CsInt n) sd split w = eval lib m bs (CsList [n]) sd split w"
  "eval lib m bs (CsTuple steps) sd split w = eval lib m bs (CsList steps) sd split w"
  by (simp_all add: eval_def Let_def split: prod.splits option.splits)

lemma eval_rejects_other_types:
  "fst (eval lib m bs (CsOther printed) sd split w) \<noteq> None"
  "s \<noteq> ''all'' \<Longrightarrow> fst (eval lib m bs (CsStr s) sd split w) \<noteq> None"
  by (simp_all add: eval_def Let_def split: prod.splits option.splits)

section \<open>The claims about evaluation and prediction\<close>



text \<open>
  Claim C4, evaluated where it fails.  The model directory holds no checkpoint, so
  \<^verbatim>\<open>get_all_checkpoint_steps\<close> returns \<^verbatim>\<open>None\<close>; with
  \<^verbatim>\<open>checkpoint_steps="all"\<close> the loop over the checkpoint steps then iterates over
  \<^verbatim>\<open>None\<close> and \<^verbatim>\<open>eval\<close> raises \<^verbatim>\<open>TypeError\<close>, for a task as for an empty
  mixture, instead of evaluating no checkpoint.
\<close>

theorem eval_all_without_checkpoints:
  "get_all_checkpoint_steps None toy_state = Inr None
   \<and> fst (eval toy_library (Task toy_task) 2 (CsStr ''all'') None ''validation'' toy_state) = Some TypeError
   \<and> fst (eval toy_library (Mixture []) 2 (CsStr ''all'') None ''validation'' toy_state) = Some TypeError"
  by code_simp

text \<open>
  Claim C6.  Evaluating the current model (\<^verbatim>\<open>checkpoint_steps=None\<close>) twice in
  succession gives the same outcome both times: the second call raises what the first
  raised (or neither raises), and the scalars the second call adds to the writer are
  those the first call added.  The first call leaves the parameters and the step
  counter as they were.  The collaborators (generation, decoding, postprocessing, the
  metric functions, the datasets) are functions of their arguments here; generation
  reads the mode flag, which every evaluation sets itself.
\<close>

theorem eval_current_twice:
  "fst (eval lib m bs CsNone sd split (snd (eval lib m bs CsNone sd split w)))
     = fst (eval lib m bs CsNone sd split w)
   \<and> drop (length (scalars (snd (eval lib m bs CsNone sd split w))))
        (scalars (snd (eval lib m bs CsNone sd split (snd (eval lib m bs CsNone sd split w)))))
     = drop (length (scalars w)) (scalars (snd (eval lib m bs CsNone sd split w)))
   \<and> params (snd (eval lib m bs CsNone sd split w)) = params w
   \<and> step (snd (eval lib m bs CsNone sd split w)) = step w"
proof -
  let ?w1 = "snd (eval lib m bs CsNone sd split w)"
  have "same_model (length (scalars w)) (length (scalars ?w1)) w ?w1"
    using eval_current_frame [of lib m bs sd split w] by (simp add: same_model_def)
  from eval_current_rel [OF this, of lib m bs sd split]
  show ?thesis
    using eval_current_frame [of lib m bs sd split w] by (simp add: same_model_def)
qed

theorem eval_current_twice_witness:
  "scalars (snd (eval toy_library (Task toy_task) 2 CsNone None ''validation'' toy_state))
     = [(''eval/toy/matches'', 4, 0)]
   \<and> drop 1 (scalars (snd (eval toy_library (Task toy_task) 2 CsNone None ''validation''
                 (snd (eval toy_library (Task toy_task) 2 CsNone None ''validation'' toy_state)))))
     = [(''eval/toy/matches'', 4, 0)]"
proof -
  have h: "scalars (snd (eval toy_library (Task toy_task) 2 CsNone None ''validation'' toy_state))
     = [(''eval/toy/matches'', 4, 0)]"
    by code_simp
  have h0: "scalars toy_state = []" by (simp add: toy_state_def)
  show ?thesis
    using eval_current_twice [of toy_library "Task toy_task" 2 None "''validation''" toy_state] h h0
    by simp
qed




text \<open>
  Claim C8.  \<^verbatim>\<open>eval\<close> on a mixture behaves as on the mixture without the tasks that
  lack the requested split, after logging one skip notice per such task: these tasks
  are neither cached nor evaluated.  When every task of the mixture lacks the split,
  evaluating the current model returns normally, and all it does is log the notices
  and switch the model to evaluation mode: no file is written and no scalar is logged.
\<close>

theorem eval_skips_tasks_without_split:
  "((\<forall>t \<in> set ts. split \<notin> set (splits t)) \<longrightarrow>
      eval lib (Mixture ts) bs CsNone sd split w
        = (None, w\<lparr>info_log := info_log w @ replicate (length ts) skip_notice, training := False\<rparr>))
   \<and> eval lib (Mixture ts) bs cs sd split w
       = eval lib (Mixture (filter (\<lambda>t. split \<in> set (splits t)) ts)) bs cs sd split
           (w\<lparr>info_log := info_log w
                 @ replicate (length (filter (\<lambda>t. split \<notin> set (splits t)) ts)) skip_notice\<rparr>)"
proof (intro conjI impI)
  assume a: "\<forall>t \<in> set ts. split \<notin> set (splits t)"
  then have f: "filter (\<lambda>t. split \<in> set (splits t)) ts = []"
    by (intro filter_none) simp
  have g: "filter (\<lambda>t. split \<notin> set (splits t)) ts = ts"
    using a by (simp add: filter_id_conv)
  show "eval lib (Mixture ts) bs CsNone sd split w
        = (None, w\<lparr>info_log := info_log w @ replicate (length ts) skip_notice, training := False\<rparr>)"
    by (simp add: eval_def Let_def fold_skip_notices f g eval_current_model_def)
next
  have n: "filter (\<lambda>t. split \<notin> set (splits t)) (filter (\<lambda>t. split \<in> set (splits t)) ts) = []"
    by (intro filter_none) simp
  show "eval lib (Mixture ts) bs cs sd split w
       = eval lib (Mixture (filter (\<lambda>t. split \<in> set (splits t)) ts)) bs cs sd split
           (w\<lparr>info_log := info_log w
                 @ replicate (length (filter (\<lambda>t. split \<notin> set (splits t)) ts)) skip_notice\<rparr>)"
    by (simp add: eval_def Let_def fold_skip_notices n
          split: prod.splits option.splits checkpoint_steps.splits sum.splits)
qed

theorem eval_skips_tasks_without_split_witness:
  "''test'' \<notin> set (splits toy_task)
   \<and> eval toy_library (Mixture [toy_task, toy_task]) 2 CsNone None ''test'' toy_state
       = (None, toy_state\<lparr>info_log := [skip_notice, skip_notice]\<rparr>)"
proof -
  have h: "\<forall>t \<in> set [toy_task, toy_task]. ''test'' \<notin> set (splits t)"
    by (simp add: toy_task_def)
  show ?thesis
    using eval_skips_tasks_without_split [where ts = "[toy_task, toy_task]" and split = "''test''"
        and lib = toy_library and bs = 2 and sd = None and w = toy_state and cs = CsNone,
        THEN conjunct1, THEN mp, OF h] h
    by (simp add: toy_state_def)
qed

end
